theory Spec2Isabelle
  imports Main
begin

text \<open>
  A model of the CSS scoping engine (\<open>CSSParser\<close>) and of the parts of the component
  loader (\<open>ComponentLoader\<close>) that fetch a component and inject its styles, followed by
  the properties proved of them. Strings are character lists, the loops are recursive
  functions, thrown errors are values, and the page is an explicit state. Console output
  (\<open>ComponentLoader.log\<close>, \<open>console.warn\<close>) is not modelled.
\<close>

section \<open>JavaScript string primitives\<close>

text \<open>
  A JavaScript string is modelled as a \<^typ>\<open>string\<close>; a \<^typ>\<open>char\<close> stands for one
  code unit in the range U+0000 .. U+00FF. \<open>String.prototype.trim\<close> and the regular
  expression class \<open>\s\<close> remove or match the same characters; in this range they are
  TAB, LF, VT, FF, CR, SPACE and NO-BREAK SPACE.
\<close>

definition isWhiteSpace :: "char \<Rightarrow> bool" where
  "isWhiteSpace c =
     (c = CHR 0x09 \<or> c = CHR 0x0A \<or> c = CHR 0x0B \<or> c = CHR 0x0C \<or> c = CHR 0x0D
      \<or> c = CHR '' '' \<or> c = CHR 0xA0)"

definition trim :: "string \<Rightarrow> string" where
  "trim s = rev (dropWhile isWhiteSpace (rev (dropWhile isWhiteSpace s)))"

text \<open>\<open>startsWith\<close>, \<open>indexOf\<close>, \<open>lastIndexOf\<close> (the result is \<open>-1\<close> when the pattern
  does not occur), \<open>includesStr\<close>.\<close>

definition startsWith :: "string \<Rightarrow> string \<Rightarrow> bool" where
  "startsWith s p = (take (length p) s = p)"

fun indexOf :: "string \<Rightarrow> string \<Rightarrow> int" where
  "indexOf [] p = (if p = [] then 0 else -1)"
| "indexOf (c # cs) p =
     (if startsWith (c # cs) p then 0
      else (let i = indexOf cs p in if i < 0 then -1 else i + 1))"

fun lastIndexOf :: "string \<Rightarrow> string \<Rightarrow> int" where
  "lastIndexOf [] p = (if p = [] then 0 else -1)"
| "lastIndexOf (c # cs) p =
     (let i = lastIndexOf cs p in
      if 0 \<le> i then i + 1 else if startsWith (c # cs) p then 0 else -1)"

definition includesStr :: "string \<Rightarrow> string \<Rightarrow> bool" where
  "includesStr s p = (indexOf s p \<noteq> -1)"

text \<open>\<open>substring(a, b)\<close> clamps both indices to \<open>0 .. length\<close> and swaps them when
  \<open>a > b\<close>; \<open>substring(a)\<close> runs to the end.\<close>

definition clampIndex :: "string \<Rightarrow> int \<Rightarrow> nat" where
  "clampIndex s i = min (nat i) (length s)"

definition substring :: "string \<Rightarrow> int \<Rightarrow> int \<Rightarrow> string" where
  "substring s a b =
     (let a' = clampIndex s a; b' = clampIndex s b
      in take (max a' b' - min a' b') (drop (min a' b') s))"

definition substringFrom :: "string \<Rightarrow> int \<Rightarrow> string" where
  "substringFrom s a = drop (clampIndex s a) s"

text \<open>\<open>split\<close> on a one-character separator (an empty string gives one empty piece)
  and \<open>join\<close>.\<close>

fun splitOn :: "char \<Rightarrow> string \<Rightarrow> string list" where
  "splitOn sep [] = [[]]"
| "splitOn sep (c # cs) =
     (if c = sep then [] # splitOn sep cs
      else (case splitOn sep cs of [] \<Rightarrow> [[c]] | p # ps \<Rightarrow> (c # p) # ps))"

fun joinWith :: "string \<Rightarrow> string list \<Rightarrow> string" where
  "joinWith sep [] = []"
| "joinWith sep [p] = p"
| "joinWith sep (p # q # ps) = p @ sep @ joinWith sep (q # ps)"

text \<open>
  \<open>str.replace(pattern, replacement)\<close> with a string pattern replaces the first
  occurrence only, and expands the replacement text first: \<open>$$\<close> is a dollar sign,
  \<open>$&\<close> the matched text, \<open>$`\<close> the text before the match, \<open>$'\<close> the text after it;
  with a string pattern there are no groups, so every other dollar sign stays as it is.
\<close>

fun getSubstitution :: "string \<Rightarrow> string \<Rightarrow> string \<Rightarrow> string \<Rightarrow> string" where
  "getSubstitution matched pre post [] = []"
| "getSubstitution matched pre post [c] = [c]"
| "getSubstitution matched pre post (c # d # r) =
     (if c = CHR ''$'' \<and> d = CHR ''$'' then CHR ''$'' # getSubstitution matched pre post r
      else if c = CHR ''$'' \<and> d = CHR ''&'' then matched @ getSubstitution matched pre post r
      else if c = CHR ''$'' \<and> d = CHR 0x60 then pre @ getSubstitution matched pre post r
      else if c = CHR ''$'' \<and> d = CHR 0x27 then post @ getSubstitution matched pre post r
      else c # getSubstitution matched pre post (d # r))"

definition replaceFirst :: "string \<Rightarrow> string \<Rightarrow> string \<Rightarrow> string" where
  "replaceFirst s p r =
     (let i = indexOf s p in
      if i < 0 then s
      else (let pre = take (nat i) s; post = drop (nat i + length p) s
            in pre @ getSubstitution p pre post r @ post))"

section \<open>Regular expressions\<close>

text \<open>
  The regular expressions of the source use literals, character classes, greedy \<open>*\<close> and
  \<open>+\<close> on a character class, greedy \<open>?\<close>, numbered groups and \<open>$\<close> (no \<open>m\<close> flag: the
  end of the input). \<open>rmatch r (s, cp)\<close> lists, in the order a backtracking matcher
  tries them, every way \<open>r\<close> can match at the start of \<open>s\<close>: the text left over and
  the groups set. The first entry is the match JavaScript reports.
\<close>

datatype regex =
    Lit string
  | Cls "char \<Rightarrow> bool"
  | Star "char \<Rightarrow> bool"
  | Plus "char \<Rightarrow> bool"
  | Opt regex
  | Seq regex regex
  | Grp nat regex
  | Eol

type_synonym captures = "nat \<rightharpoonup> string"

fun backoff :: "(char \<Rightarrow> bool) \<Rightarrow> string \<Rightarrow> string list" where
  "backoff P [] = [[]]"
| "backoff P (c # cs) = (if P c then backoff P cs @ [c # cs] else [c # cs])"

fun rmatch :: "regex \<Rightarrow> string \<times> captures \<Rightarrow> (string \<times> captures) list" where
  "rmatch (Lit l) (s, cp) = (if startsWith s l then [(drop (length l) s, cp)] else [])"
| "rmatch (Cls P) (s, cp) = (case s of [] \<Rightarrow> [] | c # cs \<Rightarrow> if P c then [(cs, cp)] else [])"
| "rmatch (Star P) (s, cp) = map (\<lambda>r. (r, cp)) (backoff P s)"
| "rmatch (Plus P) (s, cp) =
     (case s of [] \<Rightarrow> [] | c # cs \<Rightarrow> if P c then map (\<lambda>r. (r, cp)) (backoff P cs) else [])"
| "rmatch (Opt r) (s, cp) = rmatch r (s, cp) @ [(s, cp)]"
| "rmatch (Seq r1 r2) (s, cp) = concat (map (rmatch r2) (rmatch r1 (s, cp)))"
| "rmatch (Grp n r) (s, cp) =
     map (\<lambda>(s', cp'). (s', cp'(n \<mapsto> take (length s - length s') s))) (rmatch r (s, cp))"
| "rmatch Eol (s, cp) = (if s = [] then [(s, cp)] else [])"

definition cat :: "regex list \<Rightarrow> regex" where
  "cat rs = foldr Seq rs (Lit [])"

text \<open>The match at the start of \<open>s\<close>, if any: the text left over and the groups.\<close>

definition matchHere :: "regex \<Rightarrow> string \<Rightarrow> (string \<times> captures) option" where
  "matchHere r s = (case rmatch r (s, Map.empty) of [] \<Rightarrow> None | m # _ \<Rightarrow> Some m)"

text \<open>The leftmost match of an unanchored pattern: every start index in turn.\<close>

fun search :: "regex \<Rightarrow> string \<Rightarrow> (string \<times> captures) option" where
  "search r [] = matchHere r []"
| "search r (c # cs) =
     (case matchHere r (c # cs) of Some m \<Rightarrow> Some m | None \<Rightarrow> search r cs)"

definition test :: "regex \<Rightarrow> string \<Rightarrow> bool" where
  "test r s = (search r s \<noteq> None)"

text \<open>
  \<open>str.replace(regex, callback)\<close> with the \<open>g\<close> flag: each leftmost match is replaced
  by what the callback returns for the matched text and the groups, and the search goes on
  after the match (one character further when the match is empty).
\<close>

fun replaceAll :: "regex \<Rightarrow> (string \<Rightarrow> captures \<Rightarrow> string) \<Rightarrow> string \<Rightarrow> string" where
  "replaceAll r f [] =
     (case matchHere r [] of None \<Rightarrow> [] | Some (rest, cp) \<Rightarrow> f [] cp)"
| "replaceAll r f (c # cs) =
     (case matchHere r (c # cs) of
        None \<Rightarrow> c # replaceAll r f cs
      | Some (rest, cp) \<Rightarrow>
          (if length rest < length (c # cs)
           then f (take (length (c # cs) - length rest) (c # cs)) cp @ replaceAll r f rest
           else f [] cp @ c # replaceAll r f cs))"

text \<open>The character classes \<open>[a-zA-Z-]\<close>, \<open>[^\]]\<close>, \<open>[^),]\<close>, \<open>[^)]\<close> and \<open>.\<close> (any
  character but a line terminator).\<close>

definition isNameChar :: "char \<Rightarrow> bool" where
  "isNameChar c =
     ((97 \<le> (of_char c :: nat) \<and> (of_char c :: nat) \<le> 122)
      \<or> (65 \<le> (of_char c :: nat) \<and> (of_char c :: nat) \<le> 90) \<or> c = CHR ''-'')"

definition notRBracket :: "char \<Rightarrow> bool" where
  "notRBracket c = (c \<noteq> CHR '']'')"

definition notRParenComma :: "char \<Rightarrow> bool" where
  "notRParenComma c = (c \<noteq> CHR '')'' \<and> c \<noteq> CHR '','')"

definition notRParen :: "char \<Rightarrow> bool" where
  "notRParen c = (c \<noteq> CHR '')'')"

definition dot :: "char \<Rightarrow> bool" where
  "dot c = (c \<noteq> CHR 0x0A \<and> c \<noteq> CHR 0x0D)"

section \<open>CSSParser.needsFix and CSSParser.fixBrokenCSS\<close>

text \<open>\<open>/var\(--[a-zA-Z-]+,\s*\[[^\]]+\]\s*[^),]+\)/\<close>\<close>

definition brokenPattern :: regex where
  "brokenPattern =
     cat [Lit ''var('', Lit ''--'', Plus isNameChar, Lit '','', Star isWhiteSpace,
          Lit ''['', Plus notRBracket, Lit '']'', Star isWhiteSpace, Plus notRParenComma,
          Lit '')'']"

definition needsFix :: "string \<Rightarrow> bool" where
  "needsFix css = test brokenPattern css"

text \<open>\<open>/var\((--[a-zA-Z-]+),\s*(\[[^\]]+\]\s*[^),]+)\)/g\<close>\<close>

definition brokenVarPattern :: regex where
  "brokenVarPattern =
     cat [Lit ''var('', Grp 1 (cat [Lit ''--'', Plus isNameChar]), Lit '','', Star isWhiteSpace,
          Grp 2 (cat [Lit ''['', Plus notRBracket, Lit '']'', Star isWhiteSpace,
                      Plus notRParenComma]),
          Lit '')'']"

text \<open>\<open>/\]\s*(.+)$/\<close>\<close>

definition valuePattern :: regex where
  "valuePattern = cat [Lit '']'', Star isWhiteSpace, Grp 1 (Plus dot), Eol]"

text \<open>A group inside a template literal; a group that took no part prints as
  \<open>undefined\<close> (groups 1 and 2 of \<open>brokenVarPattern\<close> always take part).\<close>

definition group :: "captures \<Rightarrow> nat \<Rightarrow> string" where
  "group cp n = (case cp n of Some v \<Rightarrow> v | None \<Rightarrow> ''undefined'')"

definition fixCallback :: "string \<Rightarrow> captures \<Rightarrow> string" where
  "fixCallback matched cp =
     (let varName = group cp 1; brokenValue = group cp 2;
          valueMatch = search valuePattern brokenValue;
          cleanValue = (case valueMatch of Some (rest, vcp) \<Rightarrow> group vcp 1
                        | None \<Rightarrow> brokenValue)
      in ''var('' @ varName @ '', '' @ cleanValue @ '')'')"

definition fixBrokenCSS :: "string \<Rightarrow> string" where
  "fixBrokenCSS css = replaceAll brokenVarPattern fixCallback css"

section \<open>CSSParser.validate\<close>

text \<open>
  What \<open>validate\<close> sees of the browser: whether \<open>CSSStyleSheet\<close> is defined, and on
  which texts \<open>new CSSStyleSheet().replaceSync(css)\<close> throws.
\<close>

record browser =
  cssomAvailable :: bool
  replaceSyncThrows :: "string \<Rightarrow> bool"

datatype js_error = Error string | Undefined

record validate_state =
  braces :: int
  vInString :: bool
  vStringChar :: "char option"

text \<open>The loop over the characters; \<open>prev\<close> is \<open>css[i - 1]\<close> (nothing at index 0),
  \<open>vStringChar\<close> is \<open>None\<close> for the initial empty string.\<close>

fun validateLoop :: "char option \<Rightarrow> string \<Rightarrow> validate_state \<Rightarrow> js_error + validate_state" where
  "validateLoop prev [] st = Inr st"
| "validateLoop prev (c # cs) st =
     (let st1 =
            (if c = CHR 0x22 \<or> c = CHR 0x27 then
               (if \<not> vInString st then st\<lparr>vInString := True, vStringChar := Some c\<rparr>
                else if vStringChar st = Some c \<and> prev \<noteq> Some (CHR 0x5C)
                     then st\<lparr>vInString := False\<rparr> else st)
             else st)
      in if \<not> vInString st1 then
           (let st2 = (if c = CHR ''{'' then st1\<lparr>braces := braces st1 + 1\<rparr> else st1);
                st3 = (if c = CHR ''}'' then st2\<lparr>braces := braces st2 - 1\<rparr> else st2)
            in if braces st3 < 0 then Inl (Error ''Unmatched closing brace'')
               else validateLoop (Some c) cs st3)
         else validateLoop (Some c) cs st1)"

definition validateTry :: "browser \<Rightarrow> string \<Rightarrow> js_error + bool" where
  "validateTry env css =
     (if cssomAvailable env then
        (if replaceSyncThrows env css then Inl (Error ''replaceSync'') else Inr True)
      else
        (case validateLoop None css \<lparr>braces = 0, vInString = False, vStringChar = None\<rparr> of
           Inl e \<Rightarrow> Inl e
         | Inr st \<Rightarrow> if braces st \<noteq> 0 then Inl (Error ''Unmatched braces'') else Inr True))"

text \<open>The \<open>catch\<close> turns every error into \<open>false\<close>.\<close>

definition validate :: "browser \<Rightarrow> string \<Rightarrow> bool" where
  "validate env css = (case validateTry env css of Inl e \<Rightarrow> False | Inr b \<Rightarrow> b)"

section \<open>CSSParser.parseRules: the tokenizer\<close>

text \<open>The variables of the loop in \<open>parseRules\<close>; \<open>stringChar\<close> is \<open>None\<close> for the
  initial empty string. The three blocks of the loop body that update them are named
  after the comments of the source: "Handle strings" (\<open>handleStrings\<close>, with \<open>prev\<close> for
  \<open>css[i - 1]\<close>), "Track var() functions" (\<open>trackVar\<close>, with the text from index \<open>i\<close> for
  \<open>css.substr(i, 4)\<close>) and "Track braces for rule boundaries" (\<open>trackBraces\<close>).\<close>

record parse_state =
  rules :: "string list"
  currentRule :: string
  depth :: int
  inString :: bool
  stringChar :: "char option"
  inComment :: bool
  inVarFunction :: bool
  parenDepth :: int

definition handleStrings :: "char option \<Rightarrow> char \<Rightarrow> parse_state \<Rightarrow> parse_state" where
  "handleStrings prev c st =
     (if \<not> inComment st \<and> (c = CHR 0x22 \<or> c = CHR 0x27) then
        (if \<not> inString st then st\<lparr>inString := True, stringChar := Some c\<rparr>
         else if stringChar st = Some c \<and> prev \<noteq> Some (CHR 0x5C) then st\<lparr>inString := False\<rparr>
         else st)
      else st)"

definition trackVar :: "char \<Rightarrow> string \<Rightarrow> parse_state \<Rightarrow> parse_state" where
  "trackVar c cs st =
     (if \<not> inString st then
        (let st1 = (if c = CHR ''v'' \<and> take 4 (c # cs) = ''var(''
                    then st\<lparr>inVarFunction := True\<rparr> else st)
         in if inVarFunction st1 then
              (if c = CHR ''('' then st1\<lparr>parenDepth := parenDepth st1 + 1\<rparr>
               else if c = CHR '')'' then
                 (let st2 = st1\<lparr>parenDepth := parenDepth st1 - 1\<rparr>
                  in if parenDepth st2 = 0 then st2\<lparr>inVarFunction := False\<rparr> else st2)
               else st1)
            else st1)
      else st)"

definition trackBraces :: "char \<Rightarrow> parse_state \<Rightarrow> parse_state" where
  "trackBraces c st =
     (if c = CHR ''{'' \<and> \<not> inString st \<and> \<not> inVarFunction st then st\<lparr>depth := depth st + 1\<rparr>
      else if c = CHR ''}'' \<and> \<not> inString st \<and> \<not> inVarFunction st then
        (let st1 = st\<lparr>depth := depth st - 1\<rparr>
         in if depth st1 = 0
            then st1\<lparr>rules := rules st1 @ [trim (currentRule st1)], currentRule := []\<rparr>
            else st1)
      else st)"

text \<open>
  The loop itself, on the text from index \<open>i\<close>: \<open>nextCharOf\<close> is \<open>css[i + 1] || ""\<close>
  (\<open>None\<close> for the empty string). Opening and closing a block comment skip two
  characters (\<open>i++; continue\<close>); a line comment skips to the line feed, which the
  \<open>continue\<close> then steps over.
\<close>

definition nextCharOf :: "string \<Rightarrow> char option" where
  "nextCharOf cs = (case cs of [] \<Rightarrow> None | d # _ \<Rightarrow> Some d)"

function parseLoop :: "char option \<Rightarrow> string \<Rightarrow> parse_state \<Rightarrow> parse_state" where
  "parseLoop prev [] st = st"
| "parseLoop prev (c # cs) st =
     (let nextChar = nextCharOf cs;
          st1 = handleStrings prev c st
      in if \<not> inString st1 \<and> c = CHR ''/'' \<and> nextChar = Some (CHR ''*'')
           then parseLoop nextChar (tl cs) (st1\<lparr>inComment := True\<rparr>)
         else if inComment st1 \<and> c = CHR ''*'' \<and> nextChar = Some (CHR ''/'')
           then parseLoop nextChar (tl cs) (st1\<lparr>inComment := False\<rparr>)
         else if inComment st1 then parseLoop (Some c) cs st1
         else if \<not> inString st1 \<and> c = CHR ''/'' \<and> nextChar = Some (CHR ''/'')
           then (case dropWhile (\<lambda>x. x \<noteq> CHR 0x0A) (c # cs) of
                   [] \<Rightarrow> st1
                 | n # rest \<Rightarrow> parseLoop (Some n) rest st1)
         else
           (let st2 = trackVar c cs st1;
                st3 = st2\<lparr>currentRule := currentRule st2 @ [c]\<rparr>
            in parseLoop (Some c) cs (trackBraces c st3)))"
  by pat_completeness auto
termination
proof (relation "measure (\<lambda>(prev, s, st). length s)", goal_cases)
  case 1 show ?case by simp
next
  case (2 prev c cs st x xa) then show ?case by simp
next
  case (3 prev c cs st x xa) then show ?case by simp
next
  case (4 prev c cs st x xa) then show ?case by simp
next
  case (5 prev c cs st x xa x2 x3)
  have "length (dropWhile (\<lambda>x. x \<noteq> CHR 0x0A) (c # cs)) \<le> length (c # cs)"
    by (rule length_dropWhile_le)
  with 5 show ?case by simp
next
  case (6 prev c cs st x xa xb xc) then show ?case by simp
qed

text \<open>The values the variables of \<open>parseRules\<close> start with.\<close>

definition initialParseState :: parse_state where
  "initialParseState =
     \<lparr>rules = [], currentRule = [], depth = 0, inString = False, stringChar = None,
      inComment = False, inVarFunction = False, parenDepth = 0\<rparr>"

definition parseRules :: "string \<Rightarrow> string list" where
  "parseRules css =
     (let st = parseLoop None css initialParseState
      in if trim (currentRule st) \<noteq> [] then rules st @ [trim (currentRule st)] else rules st)"

lemma length_trim_le: "length (trim s) \<le> length s"
proof -
  have "length (trim s) \<le> length (dropWhile isWhiteSpace s)"
    unfolding trim_def using length_dropWhile_le [of isWhiteSpace "rev (dropWhile isWhiteSpace s)"] by simp
  also have "\<dots> \<le> length s" by (rule length_dropWhile_le)
  finally show ?thesis .
qed

lemma handleStrings_keeps [simp]:
  "currentRule (handleStrings p c st) = currentRule st"
  "rules (handleStrings p c st) = rules st"
  "depth (handleStrings p c st) = depth st"
  "inComment (handleStrings p c st) = inComment st"
  "inVarFunction (handleStrings p c st) = inVarFunction st"
  "parenDepth (handleStrings p c st) = parenDepth st"
  by (simp_all add: handleStrings_def)

lemma trackVar_keeps [simp]:
  "currentRule (trackVar c cs st) = currentRule st"
  "rules (trackVar c cs st) = rules st"
  "depth (trackVar c cs st) = depth st"
  "inString (trackVar c cs st) = inString st"
  "stringChar (trackVar c cs st) = stringChar st"
  "inComment (trackVar c cs st) = inComment st"
  by (simp_all add: trackVar_def Let_def)

lemma trackBraces_keeps [simp]:
  "inString (trackBraces c st) = inString st"
  "stringChar (trackBraces c st) = stringChar st"
  "inComment (trackBraces c st) = inComment st"
  "inVarFunction (trackBraces c st) = inVarFunction st"
  "parenDepth (trackBraces c st) = parenDepth st"
  by (simp_all add: trackBraces_def Let_def)

definition bounded :: "nat \<Rightarrow> parse_state \<Rightarrow> bool" where
  "bounded N st = (\<forall>r \<in> set (rules st). length r \<le> N)"

lemma trackBraces_bounded:
  assumes "bounded N st" "length (currentRule st) \<le> N"
  shows "bounded N (trackBraces c st) \<and> length (currentRule (trackBraces c st)) \<le> N"
  using assms length_trim_le [of "currentRule st"]
  by (auto simp: trackBraces_def Let_def bounded_def)

lemma parseLoop_comment_open:
  "\<not> inString (handleStrings prev c st) \<Longrightarrow> c = CHR ''/'' \<Longrightarrow> nextCharOf cs = Some (CHR ''*'') \<Longrightarrow>
   parseLoop prev (c # cs) st
     = parseLoop (Some (CHR ''*'')) (tl cs) ((handleStrings prev c st)\<lparr>inComment := True\<rparr>)"
  by (simp add: Let_def)

lemma parseLoop_comment_close:
  "inComment st \<Longrightarrow> nextCharOf cs = Some (CHR ''/'') \<Longrightarrow>
   parseLoop prev (CHR ''*'' # cs) st
     = parseLoop (Some (CHR ''/'')) (tl cs) ((handleStrings prev (CHR ''*'') st)\<lparr>inComment := False\<rparr>)"
  by (simp add: Let_def)

lemma parseLoop_in_comment:
  "inComment st \<Longrightarrow> \<not> (\<not> inString (handleStrings prev c st) \<and> c = CHR ''/'' \<and> nextCharOf cs = Some (CHR ''*'')) \<Longrightarrow>
   \<not> (c = CHR ''*'' \<and> nextCharOf cs = Some (CHR ''/'')) \<Longrightarrow>
   parseLoop prev (c # cs) st = parseLoop (Some c) cs (handleStrings prev c st)"
  by (auto simp add: Let_def)

lemma parseLoop_line_comment:
  "\<not> inComment st \<Longrightarrow> \<not> inString (handleStrings prev c st) \<Longrightarrow> c = CHR ''/'' \<Longrightarrow>
   nextCharOf cs = Some (CHR ''/'') \<Longrightarrow>
   parseLoop prev (c # cs) st
     = (case dropWhile (\<lambda>x. x \<noteq> CHR 0x0A) (c # cs) of
          [] \<Rightarrow> handleStrings prev c st
        | n # rest \<Rightarrow> parseLoop (Some n) rest (handleStrings prev c st))"
  by (auto simp add: Let_def)

lemma parseLoop_plain:
  "\<not> inComment st \<Longrightarrow>
   \<not> (\<not> inString (handleStrings prev c st) \<and> c = CHR ''/''
      \<and> (nextCharOf cs = Some (CHR ''*'') \<or> nextCharOf cs = Some (CHR ''/''))) \<Longrightarrow>
   parseLoop prev (c # cs) st
     = parseLoop (Some c) cs
         (trackBraces c ((trackVar c cs (handleStrings prev c st))
            \<lparr>currentRule := currentRule (trackVar c cs (handleStrings prev c st)) @ [c]\<rparr>))"
  by (auto simp add: Let_def)

declare parseLoop.simps(2) [simp del]

lemma parseLoop_bounded:
  "bounded N st \<Longrightarrow> length (currentRule st) + length s \<le> N \<Longrightarrow>
   bounded N (parseLoop p s st) \<and> length (currentRule (parseLoop p s st)) \<le> N"
proof (induction p s st rule: parseLoop.induct)
  case (1 prev st)
  then show ?case by simp
next
  case (2 prev c cs st)
  define nextChar where "nextChar = nextCharOf cs"
  define st1 where "st1 = handleStrings prev c st"
  have b1: "bounded N st1" using 2(6) by (simp add: st1_def bounded_def)
  have c1: "currentRule st1 = currentRule st" by (simp add: st1_def)
  have i1: "inComment st1 = inComment st" by (simp add: st1_def)
  have ltl: "length (tl cs) \<le> length cs" by simp
  consider
      (copen) "\<not> inString st1 \<and> c = CHR ''/'' \<and> nextChar = Some (CHR ''*'')"
    | (cclose) "\<not> (\<not> inString st1 \<and> c = CHR ''/'' \<and> nextChar = Some (CHR ''*''))"
               "inComment st1 \<and> c = CHR ''*'' \<and> nextChar = Some (CHR ''/'')"
    | (cin) "\<not> (\<not> inString st1 \<and> c = CHR ''/'' \<and> nextChar = Some (CHR ''*''))"
            "\<not> (inComment st1 \<and> c = CHR ''*'' \<and> nextChar = Some (CHR ''/''))"
            "inComment st1"
    | (line) "\<not> (\<not> inString st1 \<and> c = CHR ''/'' \<and> nextChar = Some (CHR ''*''))"
            "\<not> (inComment st1 \<and> c = CHR ''*'' \<and> nextChar = Some (CHR ''/''))"
            "\<not> inComment st1" "\<not> inString st1 \<and> c = CHR ''/'' \<and> nextChar = Some (CHR ''/'')"
    | (plain) "\<not> (\<not> inString st1 \<and> c = CHR ''/'' \<and> nextChar = Some (CHR ''*''))"
            "\<not> (inComment st1 \<and> c = CHR ''*'' \<and> nextChar = Some (CHR ''/''))"
            "\<not> inComment st1" "\<not> (\<not> inString st1 \<and> c = CHR ''/'' \<and> nextChar = Some (CHR ''/''))"
    by blast
  then show ?case
  proof cases
    case copen
    have "bounded N (st1\<lparr>inComment := True\<rparr>)" using b1 by (simp add: bounded_def)
    moreover have "length (currentRule (st1\<lparr>inComment := True\<rparr>)) + length (tl cs) \<le> N"
      using 2(7) c1 ltl by simp
    ultimately have "bounded N (parseLoop nextChar (tl cs) (st1\<lparr>inComment := True\<rparr>)) \<and>
       length (currentRule (parseLoop nextChar (tl cs) (st1\<lparr>inComment := True\<rparr>))) \<le> N"
      using 2(1) [OF nextChar_def st1_def copen] by blast
    moreover have "parseLoop prev (c # cs) st = parseLoop nextChar (tl cs) (st1\<lparr>inComment := True\<rparr>)"
      using copen parseLoop_comment_open [of prev c st cs] by (auto simp add: st1_def nextChar_def)
    ultimately show ?thesis by simp
  next
    case cclose
    have "bounded N (st1\<lparr>inComment := False\<rparr>)" using b1 by (simp add: bounded_def)
    moreover have "length (currentRule (st1\<lparr>inComment := False\<rparr>)) + length (tl cs) \<le> N"
      using 2(7) c1 ltl by simp
    ultimately have "bounded N (parseLoop nextChar (tl cs) (st1\<lparr>inComment := False\<rparr>)) \<and>
       length (currentRule (parseLoop nextChar (tl cs) (st1\<lparr>inComment := False\<rparr>))) \<le> N"
      using 2(2) [OF nextChar_def st1_def cclose] by blast
    moreover have "parseLoop prev (c # cs) st = parseLoop nextChar (tl cs) (st1\<lparr>inComment := False\<rparr>)"
      using cclose i1 parseLoop_comment_close [of st cs prev] by (auto simp add: st1_def nextChar_def)
    ultimately show ?thesis by simp
  next
    case cin
    have "length (currentRule st1) + length cs \<le> N" using 2(7) c1 by simp
    then have "bounded N (parseLoop (Some c) cs st1) \<and> length (currentRule (parseLoop (Some c) cs st1)) \<le> N"
      using 2(3) [OF nextChar_def st1_def cin b1] by blast
    moreover have "parseLoop prev (c # cs) st = parseLoop (Some c) cs st1"
      using cin i1 parseLoop_in_comment [of st prev c cs] by (auto simp add: st1_def nextChar_def)
    ultimately show ?thesis by simp
  next
    case line
    have eq: "parseLoop prev (c # cs) st
       = (case dropWhile (\<lambda>x. x \<noteq> CHR 0x0A) (c # cs) of [] \<Rightarrow> st1
          | n # rest \<Rightarrow> parseLoop (Some n) rest st1)"
      unfolding st1_def
      by (rule parseLoop_line_comment) (use line i1 in \<open>auto simp: st1_def nextChar_def\<close>)
    show ?thesis
    proof (cases "dropWhile (\<lambda>x. x \<noteq> CHR 0x0A) (c # cs)")
      case Nil
      then show ?thesis using eq b1 c1 2(7) by simp
    next
      case (Cons n rest)
      have "length (dropWhile (\<lambda>x. x \<noteq> CHR 0x0A) (c # cs)) \<le> length (c # cs)"
        by (rule length_dropWhile_le)
      then have "length (currentRule st1) + length rest \<le> N" using Cons 2(7) c1 by simp
      then have "bounded N (parseLoop (Some n) rest st1) \<and> length (currentRule (parseLoop (Some n) rest st1)) \<le> N"
        using 2(4) [OF nextChar_def st1_def line Cons b1] by blast
      then show ?thesis using eq Cons by simp
    qed
  next
    case plain
    define st2 where "st2 = trackVar c cs st1"
    define st3 where "st3 = st2\<lparr>currentRule := currentRule st2 @ [c]\<rparr>"
    have "bounded N st3" using b1 by (simp add: st3_def st2_def bounded_def)
    moreover have "length (currentRule st3) \<le> N" using 2(7) c1 by (simp add: st3_def st2_def)
    ultimately have tb: "bounded N (trackBraces c st3)"
      "length (currentRule (trackBraces c st3)) \<le> N"
      using trackBraces_bounded by blast+
    have "length (currentRule st3) + length cs \<le> N" using 2(7) c1 by (simp add: st3_def st2_def)
    moreover have "length (currentRule (trackBraces c st3)) \<le> length (currentRule st3)"
      by (simp add: trackBraces_def Let_def)
    ultimately have "length (currentRule (trackBraces c st3)) + length cs \<le> N" by simp
    then have "bounded N (parseLoop (Some c) cs (trackBraces c st3)) \<and>
        length (currentRule (parseLoop (Some c) cs (trackBraces c st3))) \<le> N"
      using 2(5) [OF nextChar_def st1_def plain st2_def st3_def tb(1)] by blast
    moreover have "parseLoop prev (c # cs) st = parseLoop (Some c) cs (trackBraces c st3)"
      using plain i1 parseLoop_plain [of st prev c cs]
      by (auto simp add: st1_def nextChar_def st2_def st3_def)
    ultimately show ?thesis by simp
  qed
qed

lemma parseRules_length: "r \<in> set (parseRules css) \<Longrightarrow> length r \<le> length css"
proof -
  assume r: "r \<in> set (parseRules css)"
  have "bounded (length css) initialParseState"
    "length (currentRule initialParseState) + length css \<le> length css"
    by (simp_all add: initialParseState_def bounded_def)
  from parseLoop_bounded [OF this]
  have b: "bounded (length css) (parseLoop None css initialParseState)"
    and c: "length (currentRule (parseLoop None css initialParseState)) \<le> length css" by blast+
  from r have "r \<in> set (rules (parseLoop None css initialParseState))
      \<or> r = trim (currentRule (parseLoop None css initialParseState))"
    by (auto simp: parseRules_def Let_def split: if_splits)
  then show ?thesis
    using b c length_trim_le [of "currentRule (parseLoop None css initialParseState)"]
    by (auto simp: bounded_def)
qed

section \<open>CSSParser: selector scoping and the manual parser\<close>

text \<open>\<open>/^:host\(([^)]+)\)$/\<close>\<close>
definition hostWithClassPattern :: regex where
  "hostWithClassPattern = cat [Lit '':host('', Grp 1 (Plus notRParen), Lit '')'', Eol]"

text \<open>\<open>::?[a-zA-Z-]+(\([^)]*\))?\<close> as group \<open>n\<close>, the optional argument list as group \<open>n + 1\<close>\<close>
definition pseudoGroup :: "nat \<Rightarrow> regex" where
  "pseudoGroup n =
     Grp n (cat [Lit '':'', Opt (Lit '':''), Plus isNameChar,
                 Opt (Grp (n + 1) (cat [Lit ''('', Star notRParen, Lit '')'']))])"

text \<open>\<open>/^:host\(([^)]+)\)(::?[a-zA-Z-]+(\([^)]*\))?)$/\<close>\<close>
definition hostWithClassAndPseudoPattern :: regex where
  "hostWithClassAndPseudoPattern =
     cat [Lit '':host('', Grp 1 (Plus notRParen), Lit '')'', pseudoGroup 2, Eol]"

text \<open>\<open>/^:host(::?[a-zA-Z-]+(\([^)]*\))?)$/\<close>\<close>
definition hostWithPseudoPattern :: regex where
  "hostWithPseudoPattern = cat [Lit '':host'', pseudoGroup 1, Eol]"

text \<open>\<open>/^([a-zA-Z-]*)(::?[a-zA-Z-]+(\([^)]*\))?)$/\<close>\<close>
definition pseudoPattern :: regex where
  "pseudoPattern = cat [Grp 1 (Star isNameChar), pseudoGroup 2, Eol]"

text \<open>\<open>/^--[a-zA-Z-]+$/\<close>\<close>
definition customPropertyPattern :: regex where
  "customPropertyPattern = cat [Lit ''--'', Plus isNameChar, Eol]"

definition handleHostSelector :: "string \<Rightarrow> string \<Rightarrow> string" where
  "handleHostSelector selector scopeSelector =
     (if selector = '':host'' then scopeSelector
      else (case matchHere hostWithClassPattern selector of
        Some (rest, cp) \<Rightarrow> scopeSelector @ group cp 1
      | None \<Rightarrow>
         (case matchHere hostWithClassAndPseudoPattern selector of
            Some (rest, cp) \<Rightarrow> scopeSelector @ group cp 1 @ group cp 2
          | None \<Rightarrow>
             (case matchHere hostWithPseudoPattern selector of
                Some (rest, cp) \<Rightarrow> scopeSelector @ group cp 1
              | None \<Rightarrow> replaceFirst selector '':host'' scopeSelector))))"

definition scopeSelectorsItem :: "string \<Rightarrow> string \<Rightarrow> string" where
  "scopeSelectorsItem scopeSelector selector =
     (let trimmed = trim selector in
      if startsWith trimmed ''@'' then trimmed
      else if trimmed = ''html'' \<or> trimmed = '':root'' \<or> trimmed = ''body'' then trimmed
      else if startsWith trimmed '':host'' then handleHostSelector trimmed scopeSelector
      else (case matchHere pseudoPattern trimmed of
        Some (rest, cp) \<Rightarrow>
          (let base = group cp 1; pseudo = group cp 2 in
           if base = ''host'' \<or> base = [] then scopeSelector @ pseudo
           else scopeSelector @ '' '' @ base @ pseudo)
      | None \<Rightarrow>
          if matchHere customPropertyPattern trimmed \<noteq> None then trimmed
          else scopeSelector @ '' '' @ trimmed))"

definition scopeSelectors :: "string \<Rightarrow> string \<Rightarrow> string" where
  "scopeSelectors selectors scopeSelector =
     joinWith '', '' (map (scopeSelectorsItem scopeSelector) (splitOn CHR '','' selectors))"

definition nonScopedAtRules :: "string list" where
  "nonScopedAtRules = [''@keyframes'', ''@-webkit-keyframes'', ''@-moz-keyframes'', ''@font-face'',
                       ''@import'', ''@charset'', ''@namespace'']"

lemma length_substring_le: "length (substring s a b) \<le> nat (max a b)"
proof -
  have "length (substring s a b) \<le> max (clampIndex s a) (clampIndex s b)"
    by (simp add: substring_def Let_def)
  also have "\<dots> \<le> max (nat a) (nat b)"
    by (simp add: clampIndex_def max_def min_def)
  also have "\<dots> = nat (max a b)"
    by (simp add: max_def)
  finally show ?thesis .
qed

lemma length_substringFrom_le: "length (substringFrom s a) \<le> length s"
  by (simp add: substringFrom_def)

lemma indexOf_nonneg: "- 1 \<le> indexOf s p"
  by (induction s) (auto simp: Let_def)

lemma lastIndexOf_less: "p \<noteq> [] \<Longrightarrow> lastIndexOf s p < int (length s)"
  by (induction s) (auto simp: Let_def)

function scopeWithManualParser :: "string \<Rightarrow> string \<Rightarrow> string"
  and scopeRule :: "string \<Rightarrow> string \<Rightarrow> string"
  and scopeAtRule :: "string \<Rightarrow> string \<Rightarrow> string \<Rightarrow> string \<Rightarrow> string"
where
  "scopeWithManualParser css scopeSelector =
     concat (map (\<lambda>rule. scopeRule rule scopeSelector @ [CHR 0x0A]) (parseRules css))"
| "scopeRule rule scopeSelector =
     (let firstBrace = indexOf rule ''{'' in
      if firstBrace = -1 then rule
      else
        (let beforeBrace = trim (substring rule 0 firstBrace);
             afterBrace = substringFrom rule firstBrace
         in if startsWith beforeBrace ''@''
            then scopeAtRule rule beforeBrace afterBrace scopeSelector
            else scopeSelectors beforeBrace scopeSelector @ afterBrace))"
| "scopeAtRule rule beforeBrace afterBrace scopeSelector =
     (if list_ex (startsWith beforeBrace) nonScopedAtRules then rule
      else if startsWith beforeBrace ''@media'' \<or> startsWith beforeBrace ''@supports''
              \<or> startsWith beforeBrace ''@container'' \<or> startsWith beforeBrace ''@layer''
      then
        (let innerStart = indexOf afterBrace ''{'' + 1;
             innerEnd = lastIndexOf afterBrace ''}''
         in if innerStart \<ge> innerEnd then rule
            else
              (let innerCSS = substring afterBrace innerStart innerEnd;
                   scopedInner = scopeWithManualParser innerCSS scopeSelector
               in beforeBrace @ '' {'' @ scopedInner @ ''}''))
      else rule)"
  by pat_completeness auto
termination
proof (relation "measure (\<lambda>x. case x of
          Inl (css, sc) \<Rightarrow> 3 * length css + 2
        | Inr (Inl (rule, sc)) \<Rightarrow> 3 * length rule + 1
        | Inr (Inr (rule, bb, ab, sc)) \<Rightarrow> 3 * length ab)", goal_cases)
  case 1
  show ?case by simp
next
  case (2 css scopeSelector rule)
  then show ?case using parseRules_length [of rule css] by simp
next
  case (3 rule scopeSelector firstBrace beforeBrace afterBrace)
  then show ?case using length_substringFrom_le [of rule firstBrace] by simp
next
  case (4 rule beforeBrace afterBrace scopeSelector innerStart innerEnd innerCSS)
  have "innerStart < innerEnd" using 4 by simp
  then have "length innerCSS \<le> nat innerEnd"
    using 4 length_substring_le [of afterBrace innerStart innerEnd] by (simp add: max_def)
  moreover have "innerEnd < int (length afterBrace)"
    using 4 lastIndexOf_less [of "''}''" afterBrace] by simp
  moreover have "0 \<le> innerStart" using 4 indexOf_nonneg [of afterBrace "''{''"] by simp
  ultimately have "length innerCSS < length afterBrace"
    using \<open>innerStart < innerEnd\<close> by arith
  then show ?case by simp
qed

section \<open>CSSParser: the line-based scoper used when rendering\<close>

text \<open>\<open>CSSParser.scopeSelectorsSafe\<close>: one selector of the comma-separated list.\<close>

definition scopeSelectorsSafeItem :: "string \<Rightarrow> string \<Rightarrow> string" where
  "scopeSelectorsSafeItem scopeSelector selector =
     (let trimmed = trim selector in
      if startsWith trimmed ''--'' then trimmed
      else if startsWith trimmed ''@'' then trimmed
      else if trimmed = ''html'' \<or> trimmed = '':root'' \<or> trimmed = ''body'' then trimmed
      else if startsWith trimmed '':host'' then replaceFirst trimmed '':host'' scopeSelector
      else scopeSelector @ '' '' @ trimmed)"

definition scopeSelectorsSafe :: "string \<Rightarrow> string \<Rightarrow> string" where
  "scopeSelectorsSafe selectors scopeSelector =
     joinWith '', '' (map (scopeSelectorsSafeItem scopeSelector) (splitOn CHR '','' selectors))"

text \<open>
  \<open>CSSParser.scopeCSSSafe\<close>: the loop over the lines, with the variables \<open>result\<close>,
  \<open>inRule\<close> and \<open>currentSelectors\<close> it updates.
\<close>

record safe_state =
  result :: string
  inRule :: bool
  currentSelectors :: string

definition scopeCSSSafe_line :: "string \<Rightarrow> safe_state \<Rightarrow> string \<Rightarrow> safe_state" where
  "scopeCSSSafe_line scopeSelector st line =
     (let trimmed = trim line in
      if trimmed = [] then st\<lparr>result := result st @ line @ [CHR 0x0A]\<rparr>
      else if includesStr trimmed ''{'' \<and> \<not> includesStr trimmed ''}'' then
        (let cur = trim (substring trimmed 0 (indexOf trimmed ''{''));
             scopedSelectors = scopeSelectorsSafe cur scopeSelector
         in st\<lparr>inRule := True, currentSelectors := cur,
               result := result st @ scopedSelectors @ '' {''
                           @ substringFrom trimmed (indexOf trimmed ''{'' + 1) @ [CHR 0x0A]\<rparr>)
      else if includesStr trimmed ''}'' \<and> \<not> includesStr trimmed ''{'' then
        st\<lparr>inRule := False, result := result st @ line @ [CHR 0x0A]\<rparr>
      else if inRule st then st\<lparr>result := result st @ line @ [CHR 0x0A]\<rparr>
      else if startsWith trimmed ''@media'' \<or> startsWith trimmed ''@supports''
              \<or> startsWith trimmed ''@keyframes'' \<or> startsWith trimmed ''@font-face''
        then st\<lparr>result := result st @ line @ [CHR 0x0A]\<rparr>
        else st\<lparr>result := result st @ line @ [CHR 0x0A]\<rparr>)"

definition scopeCSSSafe :: "string \<Rightarrow> string \<Rightarrow> string" where
  "scopeCSSSafe css scopeSelector =
     result (foldl (scopeCSSSafe_line scopeSelector)
                   \<lparr>result = [], inRule = False, currentSelectors = []\<rparr>
                   (splitOn (CHR 0x0A) css))"

section \<open>ComponentLoader.simpleScopeCSS\<close>

text \<open>The scope selector built from a scope id: \<open>[data-component-id="<id>"]\<close>.\<close>

definition scopeSelectorOf :: "string \<Rightarrow> string" where
  "scopeSelectorOf scopeId = ''[data-component-id='' @ [CHR 0x22] @ scopeId @ [CHR 0x22] @ '']''"

definition simpleScopeItem :: "string \<Rightarrow> string \<Rightarrow> string" where
  "simpleScopeItem scopeSelector s =
     (if startsWith s '':host'' then replaceFirst s '':host'' scopeSelector
      else if s = ''html'' \<or> s = '':root'' \<or> startsWith s ''@'' then s
      else scopeSelector @ '' '' @ s)"

text \<open>One line of the loop; \<open>inVar\<close> is the local variable \<open>inVarFunction\<close>, which
  the source sets to \<open>false\<close> and never changes.\<close>

definition simpleScopeLine :: "string \<Rightarrow> bool \<Rightarrow> string \<Rightarrow> string" where
  "simpleScopeLine scopeSelector inVar line =
     (if \<not> inVar \<and> includesStr line ''{'' \<and> \<not> includesStr line ''}'' then
        (case splitOn CHR ''{'' line of
           [p0, p1] \<Rightarrow>
             (let selectors = trim p0; content = p1 in
              if \<not> startsWith selectors ''--'' then
                joinWith '', '' (map (simpleScopeItem scopeSelector)
                                   (map trim (splitOn CHR '','' selectors)))
                  @ '' {'' @ content
              else line)
         | _ \<Rightarrow> line)
      else line)"

definition simpleScopeCSS :: "string \<Rightarrow> string \<Rightarrow> string" where
  "simpleScopeCSS css scopeId =
     foldl (\<lambda>res line. res @ simpleScopeLine (scopeSelectorOf scopeId) False line @ [CHR 0x0A])
           [] (splitOn (CHR 0x0A) css)"

section \<open>ComponentLoader.injectStyles\<close>

text \<open>
  The style element made by \<open>document.createElement("style")\<close>: its identity
  (\<open>elemId\<close>, the number of elements created before it), the two \<open>dataset\<close>
  entries the function writes and its text.
\<close>

record style_element =
  elemId :: nat
  componentScope :: string
  componentStyle :: string
  textContent :: string

text \<open>
  The part of the page \<open>injectStyles\<close> touches: the element allocator, the children
  of \<open>document.head\<close> in order, and the map \<open>ComponentLoader.styles\<close>.
\<close>

record dom_state =
  created :: nat
  docHead :: "style_element list"
  styles :: "string \<rightharpoonup> style_element list"

definition injectStyles :: "string \<Rightarrow> string \<Rightarrow> dom_state \<Rightarrow> style_element option \<times> dom_state" where
  "injectStyles css scopeId st =
     (if trim css = [] then (None, st)
      else
        let style = \<lparr>elemId = created st, componentScope = scopeId,
                      componentStyle = ''true'', textContent = css\<rparr>;
            st1 = st\<lparr>created := created st + 1, docHead := docHead st @ [style]\<rparr>;
            st2 = (if styles st1 scopeId = None
                   then st1\<lparr>styles := (styles st1)(scopeId \<mapsto> [])\<rparr> else st1);
            st3 = (case styles st2 scopeId of
                     Some l \<Rightarrow> st2\<lparr>styles := (styles st2)(scopeId \<mapsto> l @ [style])\<rparr>
                   | None \<Rightarrow> st2)
        in (Some style, st3))"

section \<open>ComponentLoader: configuration and the page\<close>

text \<open>The fields of \<open>ComponentLoader.config\<close> read by the functions modelled here.\<close>

record loader_config =
  cache :: bool
  basePath :: string
  retryCount :: int
  retryDelay :: int
  validateCSS :: bool
  errorHandling :: string

text \<open>
  What the loader sees of its surroundings: whether \<open>window.CSSParser\<close> is set, the
  browser's style sheet interface, the answer of the network to the \<open>n\<close>-th call of
  \<open>fetch\<close> for a path (a rejection with its message, or a response with \<open>ok\<close>,
  \<open>status\<close>, \<open>statusText\<close> and body), the extraction of html and css from a fetched text, and the
  rendering of a component into an element (DOM work outside this model, which may throw).
\<close>

datatype http_response =
    NetworkFailure string
  | Response bool string string string

record component_data =
  componentHtml :: string
  componentCss :: string

record element =
  dataset :: "string \<rightharpoonup> string"
  innerHTML :: string

record page_env =
  cssParserPresent :: bool
  cssBrowser :: browser
  http :: "nat \<Rightarrow> string \<Rightarrow> http_response"
  extractParts :: "string \<Rightarrow> component_data"
  renderComponent :: "element \<Rightarrow> component_data \<Rightarrow> string \<Rightarrow> js_error + element"
  errorHTML :: "string \<Rightarrow> js_error \<Rightarrow> string"

datatype event = Fetch string | Delay int | ComponentLoaded string

record loading_state =
  lsName :: string
  lsRetryCount :: int
  lsError :: "js_error option"

text \<open>The default configuration of the source.\<close>

definition defaultConfig :: loader_config where
  "defaultConfig = \<lparr>cache = True, basePath = ''components/'', retryCount = 2, retryDelay = 1000,
                     validateCSS = True, errorHandling = ''graceful''\<rparr>"

record loader_state =
  trace :: "event list"
  fetchCount :: nat
  components :: "string \<rightharpoonup> component_data"
  loadingStates :: "string \<rightharpoonup> loading_state"
  placeholder :: element

section \<open>ComponentLoader.injectScopedStyles\<close>

definition injectScopedStyles ::
  "loader_config \<Rightarrow> page_env \<Rightarrow> string \<Rightarrow> string \<Rightarrow> dom_state
     \<Rightarrow> js_error + (style_element option \<times> dom_state)" where
  "injectScopedStyles cfg env css scopeId st =
     (if trim css = [] then Inr (None, st)
      else
        (let css1 = (if cssParserPresent env \<and> needsFix css then fixBrokenCSS css else css) in
         if validateCSS cfg \<and> cssParserPresent env \<and> \<not> validate (cssBrowser env) css1
            \<and> errorHandling cfg = ''strict''
         then Inl (Error ''Invalid CSS syntax'')
         else
           (let scopedCSS =
                  (if cssParserPresent env then
                     (let scopeSelector = scopeSelectorOf scopeId;
                          scoped = scopeCSSSafe css1 scopeSelector
                      in if needsFix scoped then fixBrokenCSS scoped else scoped)
                   else simpleScopeCSS css1 scopeId)
            in Inr (injectStyles scopedCSS scopeId st))))"

section \<open>ComponentLoader.fetchComponent, fetchComponentWithRetry, loadComponent\<close>

text \<open>
  \<open>fetchComponent\<close>: one call of \<open>fetch\<close>, recorded in the trace; a network failure or a
  response that is not \<open>ok\<close> is thrown. The status is kept as the text the template
  literal prints.
\<close>

definition fetchComponent ::
  "loader_config \<Rightarrow> page_env \<Rightarrow> string \<Rightarrow> loader_state \<Rightarrow> (js_error + component_data) \<times> loader_state" where
  "fetchComponent cfg env name st =
     (let htmlPath = basePath cfg @ name @ ''.html'';
          st1 = st\<lparr>trace := trace st @ [Fetch htmlPath], fetchCount := fetchCount st + 1\<rparr>
      in case http env (fetchCount st) htmlPath of
           NetworkFailure msg \<Rightarrow> (Inl (Error msg), st1)
         | Response ok status statusText body \<Rightarrow>
             if \<not> ok then (Inl (Error (''HTTP '' @ status @ '': '' @ statusText)), st1)
             else (Inr (extractParts env body), st1))"

text \<open>
  The loop of \<open>fetchComponentWithRetry\<close> from index \<open>i\<close> on; \<open>lastError\<close> is
  \<open>Undefined\<close> until an attempt has failed. \<open>delay(ms)\<close> is recorded in the trace.
\<close>

function retryLoop ::
  "loader_config \<Rightarrow> page_env \<Rightarrow> string \<Rightarrow> int \<Rightarrow> js_error \<Rightarrow> loader_state
     \<Rightarrow> (js_error + component_data) \<times> loader_state" where
  "retryLoop cfg env name i lastError st =
     (if i \<le> retryCount cfg then
        (case fetchComponent cfg env name st of
           (Inr data, st1) \<Rightarrow> (Inr data, st1)
         | (Inl error, st1) \<Rightarrow>
             (let st2 = (if i < retryCount cfg
                         then st1\<lparr>trace := trace st1 @ [Delay (retryDelay cfg * (i + 1))]\<rparr>
                         else st1)
              in retryLoop cfg env name (i + 1) error st2))
      else (Inl lastError, st))"
  by pat_completeness auto
termination
  by (relation "measure (\<lambda>(cfg, env, name, i, lastError, st). nat (retryCount cfg - i + 1))") auto

definition fetchComponentWithRetry ::
  "loader_config \<Rightarrow> page_env \<Rightarrow> string \<Rightarrow> int \<Rightarrow> loader_state
     \<Rightarrow> (js_error + component_data) \<times> loader_state" where
  "fetchComponentWithRetry cfg env name retryCountArg st = retryLoop cfg env name 0 Undefined st"

text \<open>\<open>error.message\<close>; reading it from \<open>undefined\<close> throws a \<open>TypeError\<close>.\<close>

definition message :: "js_error \<Rightarrow> js_error + string" where
  "message e = (case e of Error m \<Rightarrow> Inr m
                | Undefined \<Rightarrow> Inl (Error ''Cannot read properties of undefined''))"

definition setData :: "string \<Rightarrow> string \<Rightarrow> loader_state \<Rightarrow> loader_state" where
  "setData k v st = st\<lparr>placeholder := (placeholder st)\<lparr>dataset := (dataset (placeholder st))(k \<mapsto> v)\<rparr>\<rparr>"

definition deleteData :: "string \<Rightarrow> loader_state \<Rightarrow> loader_state" where
  "deleteData k st = st\<lparr>placeholder := (placeholder st)\<lparr>dataset := (dataset (placeholder st))(k := None)\<rparr>\<rparr>"

text \<open>The \<open>try\<close> block of \<open>loadComponent\<close>.\<close>

definition loadTry ::
  "loader_config \<Rightarrow> page_env \<Rightarrow> string \<Rightarrow> int \<Rightarrow> string \<Rightarrow> loader_state
     \<Rightarrow> js_error option \<times> loader_state" where
  "loadTry cfg env name retry loadId st =
     (let (fetched, st1) =
            (case (if cache cfg then components st name else None) of
               Some d \<Rightarrow> (Inr d, st)
             | None \<Rightarrow>
                 (case fetchComponentWithRetry cfg env name retry st of
                    (Inr d, st') \<Rightarrow>
                       (Inr d, if cache cfg then st'\<lparr>components := (components st')(name \<mapsto> d)\<rparr>
                               else st')
                  | (Inl e, st') \<Rightarrow> (Inl e, st')))
      in case fetched of
           Inl e \<Rightarrow> (Some e, st1)
         | Inr componentData \<Rightarrow>
             (case renderComponent env (placeholder st1) componentData name of
                Inl e \<Rightarrow> (Some e, st1)
              | Inr el \<Rightarrow>
                  (let st2 = st1\<lparr>placeholder := el\<rparr>;
                       st3 = deleteData ''loadId'' (deleteData ''error''
                               (setData ''loading'' ''false'' (setData ''loaded'' ''true'' st2)));
                       st4 = st3\<lparr>loadingStates := (loadingStates st3)(loadId := None)\<rparr>
                   in (None, st4\<lparr>trace := trace st4 @ [ComponentLoaded name]\<rparr>))))"

text \<open>The \<open>catch\<close> block: the error markers are written first; a thrown value is
  returned next to the state it leaves.\<close>

definition loadCatch ::
  "loader_config \<Rightarrow> page_env \<Rightarrow> string \<Rightarrow> string \<Rightarrow> js_error \<Rightarrow> loader_state
     \<Rightarrow> js_error option \<times> loader_state" where
  "loadCatch cfg env name loadId error st =
     (let st1 = setData ''error'' ''true''
                  (setData ''loaded'' ''false'' (setData ''loading'' ''false'' st))
      in case message error of
           Inl typeError \<Rightarrow> (Some typeError, st1)
         | Inr msg \<Rightarrow>
             (let st2 = setData ''errorMessage'' msg st1;
                  st3 = (case loadingStates st2 loadId of
                           Some ls \<Rightarrow> st2\<lparr>loadingStates :=
                                           (loadingStates st2)(loadId \<mapsto> ls\<lparr>lsError := Some error\<rparr>)\<rparr>
                         | None \<Rightarrow> st2)
              in if errorHandling cfg = ''graceful'' then
                   (let st4 = (if dataset (placeholder st3) ''errorRendered'' = None
                                  \<or> dataset (placeholder st3) ''errorRendered'' = Some []
                               then setData ''errorRendered'' ''true''
                                      (setData ''errorComponent'' name
                                         (st3\<lparr>placeholder := (placeholder st3)
                                                 \<lparr>innerHTML := errorHTML env name error\<rparr>\<rparr>))
                               else st3)
                    in (None, deleteData ''loadId'' st4))
                 else (Some error, st3)))"

definition loadComponent ::
  "loader_config \<Rightarrow> page_env \<Rightarrow> string \<Rightarrow> int \<Rightarrow> string \<Rightarrow> loader_state
     \<Rightarrow> js_error option \<times> loader_state" where
  "loadComponent cfg env name retry loadId st =
     (let st1 = setData ''loadId'' loadId (setData ''loading'' ''true'' st);
          st2 = st1\<lparr>loadingStates := (loadingStates st1)
                       (loadId \<mapsto> \<lparr>lsName = name, lsRetryCount = retry, lsError = None\<rparr>)\<rparr>
      in case loadTry cfg env name retry loadId st2 of
           (None, st3) \<Rightarrow> (None, st3)
         | (Some error, st3) \<Rightarrow> loadCatch cfg env name loadId error st3)"


section \<open>Vocabulary of the properties\<close>

subsection \<open>Browsers\<close>

text \<open>A browser whose \<open>replaceSync\<close> accepts every text (CSS parsing recovers from
  errors instead of throwing), and a browser without \<open>CSSStyleSheet\<close>.\<close>

definition lenientBrowser :: browser where
  "lenientBrowser = \<lparr>cssomAvailable = True, replaceSyncThrows = (\<lambda>text. False)\<rparr>"

definition plainBrowser :: browser where
  "plainBrowser = \<lparr>cssomAvailable = False, replaceSyncThrows = (\<lambda>text. False)\<rparr>"

subsection \<open>Where a pattern matches\<close>

text \<open>The texts left over by all the ways a pattern matches at the start of \<open>s\<close>; the
  groups play no part in whether and where a pattern matches.\<close>

primrec rems :: "regex \<Rightarrow> string \<Rightarrow> string list" where
  "rems (Lit l) s = (if startsWith s l then [drop (length l) s] else [])"
| "rems (Cls P) s = (case s of [] \<Rightarrow> [] | c # cs \<Rightarrow> if P c then [cs] else [])"
| "rems (Star P) s = backoff P s"
| "rems (Plus P) s = (case s of [] \<Rightarrow> [] | c # cs \<Rightarrow> if P c then backoff P cs else [])"
| "rems (Opt r) s = rems r s @ [s]"
| "rems (Seq r1 r2) s = concat (map (rems r2) (rems r1 s))"
| "rems (Grp n r) s = rems r s"
| "rems Eol s = (if s = [] then [s] else [])"

text \<open>Sequencing of matchers, and its unit.\<close>

definition seqf :: "(string \<Rightarrow> string list) \<Rightarrow> (string \<Rightarrow> string list) \<Rightarrow> string \<Rightarrow> string list" where
  "seqf f g = (\<lambda>s. concat (map g (f s)))"

definition unitf :: "string \<Rightarrow> string list" where
  "unitf = (\<lambda>s. [s])"

section \<open>The tokenizer\<close>

text \<open>
  On a text whose string literals hold no backslash and whose comments hold no slash, the
  tokenizer splits at the top-level braces only: the braces in the literal \<open>"}"\<close>, in the
  comment \<open>/*}*/\<close> and in the call \<open>var(--x,{})\<close> are not counted, and the unterminated
  \<open>d{e\<close> is emitted as the last rule.
\<close>

lemma parseRules_examples:
  "parseRules (''a{b:'' @ [CHR 0x22] @ ''}'' @ [CHR 0x22] @ '';/*}*/c:var(--x,{})}d{e'')
     = [''a{b:'' @ [CHR 0x22] @ ''}'' @ [CHR 0x22] @ '';c:var(--x,{})}'', ''d{e'']"
  by code_simp

text \<open>
  C2. The claim: the rule-boundary brace counting of \<open>parseRules\<close> ignores every brace
  inside a string literal (backslash-escape aware) and inside a comment. The code takes a
  quote for escaped whenever the character right before it is a backslash (character
  0x5C), also when that backslash is itself escaped. In the text of the two rules
  \<open>a{b:"BB"}\<close> and \<open>c{d:"}"}\<close>, where \<open>B\<close> stands for one backslash, the first literal is
  an escaped backslash; the code does not close it at its second quote, takes the text up
  to the next quote for the literal, and counts the closing brace inside the literal
  \<open>"}"\<close> as the end of a rule: the chunks returned are \<open>a{b:"BB"}c{d:"}\<close> and \<open>"}\<close>.
  Likewise the test for the opening of a block comment is also made inside a comment and
  skips the character after the slash: in \<open>a{/*/*/}b{c:d}\<close> the comment \<open>/*/*/\<close> is
  never closed, the rest of the text is dropped, and the only chunk is \<open>a{\<close>.
\<close>

theorem parseRules_counts_brace_inside_string_literal:
  "parseRules (''a{b:'' @ [CHR 0x22, CHR 0x5C, CHR 0x5C, CHR 0x22] @ ''}c{d:'' @ [CHR 0x22] @ ''}''
                 @ [CHR 0x22] @ ''}'')
     = [''a{b:'' @ [CHR 0x22, CHR 0x5C, CHR 0x5C, CHR 0x22] @ ''}c{d:'' @ [CHR 0x22] @ ''}'',
        [CHR 0x22] @ ''}'']
   \<and> parseRules ''a{/*/*/}b{c:d}'' = [''a{'']"
  by code_simp

section \<open>At-rules\<close>

text \<open>
  The manual parser: a rule that starts with \<open>@keyframes\<close> is returned as it is, and the
  inner rule of the one-line \<open>@media\<close> rule is scoped (the result has a space before the
  brace and a line feed after the inner rule).
\<close>

lemma startsWith_brace: "startsWith (c # cs) ''{'' = (c = CHR ''{'')"
  by (simp add: startsWith_def)

lemma indexOf_brace_append:
  "CHR ''{'' \<notin> set p \<Longrightarrow>
   indexOf (p @ s) ''{'' = (if indexOf s ''{'' < 0 then -1 else int (length p) + indexOf s ''{'')"
proof (induction p)
  case Nil
  then show ?case using indexOf_nonneg [of s "''{''"] by auto
next
  case (Cons a p)
  then show ?case using indexOf_nonneg [of s "''{''"]
    by (auto simp: startsWith_brace Let_def)
qed

lemma substring_take: "0 \<le> b \<Longrightarrow> substring s 0 b = take (nat b) s"
  by (auto simp: substring_def clampIndex_def Let_def min_def max_def)

lemma dropWhile_rev_keeps:
  assumes "x \<noteq> []" "\<not> P (last x)"
  shows "\<exists>z. rev (dropWhile P (rev (x @ y))) = x @ z"
proof (cases "\<forall>c \<in> set y. P c")
  case True
  then have "dropWhile P (rev y @ rev x) = dropWhile P (rev x)"
    by (intro dropWhile_append2) auto
  moreover have "dropWhile P (rev x) = rev x"
    using assms by (cases "rev x") (auto simp: last_rev hd_rev)
  ultimately show ?thesis by simp
next
  case False
  then have "dropWhile P (rev y @ rev x) = dropWhile P (rev y) @ rev x"
    by (auto simp: dropWhile_append1)
  then show ?thesis by simp
qed

lemma trim_keeps_prefix:
  assumes "x \<noteq> []" "\<not> isWhiteSpace (hd x)" "\<not> isWhiteSpace (last x)"
  shows "\<exists>z. trim (x @ y) = x @ z"
proof -
  have "dropWhile isWhiteSpace (x @ y) = x @ y"
    using assms(1,2) by (cases x) auto
  then show ?thesis
    unfolding trim_def using dropWhile_rev_keeps [of x isWhiteSpace y] assms(1,3) by simp
qed

lemma scopeRule_keyframes: "scopeRule (''@keyframes'' @ body) sc = ''@keyframes'' @ body"
proof -
  define kf where "kf = ''@keyframes''"
  have kf_facts: "kf \<noteq> []" "\<not> isWhiteSpace (hd kf)" "\<not> isWhiteSpace (last kf)" "CHR ''{'' \<notin> set kf"
    by (simp_all add: kf_def isWhiteSpace_def)
  have goal: "scopeRule (kf @ body) sc = kf @ body"
  proof (cases "indexOf (kf @ body) ''{'' = -1")
    case True
    then show ?thesis by (simp add: Let_def)
  next
    case False
    define fb where "fb = indexOf (kf @ body) ''{''"
    have fb: "fb = int (length kf) + indexOf body ''{''" and nn: "0 \<le> indexOf body ''{''"
      using False indexOf_brace_append [OF kf_facts(4), of body]
      by (auto simp: fb_def split: if_splits)
    have "substring (kf @ body) 0 fb = kf @ take (nat (indexOf body ''{'')) body"
      using nn by (simp add: substring_take fb nat_add_distrib)
    moreover obtain z where "trim (kf @ take (nat (indexOf body ''{'')) body) = kf @ z"
      using trim_keeps_prefix [OF kf_facts(1-3)] by blast
    ultimately have bb: "trim (substring (kf @ body) 0 fb) = kf @ z" by simp
    have at: "startsWith (kf @ z) ''@''" by (simp add: startsWith_def kf_def)
    have k: "list_ex (startsWith (kf @ z)) nonScopedAtRules"
      by (simp add: nonScopedAtRules_def startsWith_def kf_def)
    have ne: "fb \<noteq> -1" using False by (simp add: fb_def)
    show ?thesis
      by (subst scopeRule.simps)
         (simp only: Let_def fb_def [symmetric] bb at k ne if_True if_False scopeAtRule.simps)
  qed
  then show ?thesis by (simp add: kf_def)
qed

lemma media_example:
  "scopeRule ''@media (max-width:768px){.a{color:red}}'' (''[id='' @ [CHR 0x22] @ ''x'' @ [CHR 0x22] @ '']'')
     = ''@media (max-width:768px) {[id='' @ [CHR 0x22] @ ''x'' @ [CHR 0x22] @ ''] .a{color:red}''
         @ [CHR 0x0A] @ ''}''"
  by code_simp

text \<open>
  C4. The claim: scoping \<open>@media (max-width:768px){.a{color:red}}\<close> with \<open>[id="x"]\<close>
  scopes the inner rule \<open>.a\<close>, and a \<open>@keyframes\<close> rule is returned as it is, never
  scoped. The manual parser does both (lemmas \<open>media_example\<close> and
  \<open>scopeRule_keyframes\<close>). The scopers of the render path go line by line and do neither:
  \<open>scopeCSSSafe\<close>, and \<open>simpleScopeCSS\<close> with the scope selector of the scope id \<open>x\<close>,
  return the one-line \<open>@media\<close> rule followed by a line feed, with \<open>.a\<close> unscoped; and in a
  \<open>@keyframes\<close> rule written over several lines both take the line \<open>from{\<close> for the start
  of a style rule and put the scope selector before the keyframe selector \<open>from\<close>.
\<close>

theorem render_path_scopers_on_at_rules:
  "scopeCSSSafe ''@media (max-width:768px){.a{color:red}}'' (''[id='' @ [CHR 0x22] @ ''x'' @ [CHR 0x22] @ '']'')
     = ''@media (max-width:768px){.a{color:red}}'' @ [CHR 0x0A]
   \<and> simpleScopeCSS ''@media (max-width:768px){.a{color:red}}'' ''x''
     = ''@media (max-width:768px){.a{color:red}}'' @ [CHR 0x0A]
   \<and> scopeCSSSafe (''@keyframes spin{'' @ [CHR 0x0A] @ ''from{'' @ [CHR 0x0A] @ ''a:b'' @ [CHR 0x0A]
                     @ ''}'' @ [CHR 0x0A] @ ''}'')
                  (''[id='' @ [CHR 0x22] @ ''x'' @ [CHR 0x22] @ '']'')
     = ''@keyframes spin {'' @ [CHR 0x0A] @ ''[id='' @ [CHR 0x22] @ ''x'' @ [CHR 0x22] @ ''] from {''
         @ [CHR 0x0A] @ ''a:b'' @ [CHR 0x0A] @ ''}'' @ [CHR 0x0A] @ ''}'' @ [CHR 0x0A]
   \<and> simpleScopeCSS (''@keyframes spin{'' @ [CHR 0x0A] @ ''from{'' @ [CHR 0x0A] @ ''a:b'' @ [CHR 0x0A]
                       @ ''}'' @ [CHR 0x0A] @ ''}'') ''x''
     = ''@keyframes spin {'' @ [CHR 0x0A] @ scopeSelectorOf ''x'' @ '' from {''
         @ [CHR 0x0A] @ ''a:b'' @ [CHR 0x0A] @ ''}'' @ [CHR 0x0A] @ ''}'' @ [CHR 0x0A]"
  by code_simp

section \<open>Validation\<close>

text \<open>
  C7. The claim: \<open>validate\<close> returns true for every brace-balanced text, counting only
  braces outside string literals, and false for any text with an unmatched closing brace
  or a brace left open. Where \<open>CSSStyleSheet\<close> is defined \<open>validate\<close> counts nothing: it
  returns true whenever \<open>replaceSync\<close> does not throw, so in a browser that recovers from
  errors the lone \<open>}\<close> is accepted, which the brace count of the same function rejects.
  The brace count in turn takes a quote for escaped whenever the character right before
  it is a backslash (character 0x5C), also when that backslash is itself escaped: the
  balanced \<open>a{b:"BB"}\<close>, where \<open>B\<close> stands for one backslash, is rejected, because the
  literal is not closed at its second quote and the closing brace is skipped; and a
  single quote, a line feed and \<open>}\<close> are accepted, the unmatched brace being taken for
  the inside of a literal that the line feed has ended.
\<close>

theorem validate_accepts_unmatched_and_rejects_balanced:
  "validate lenientBrowser ''}''
   \<and> \<not> validate plainBrowser ''}''
   \<and> \<not> validate plainBrowser (''a{b:'' @ [CHR 0x22, CHR 0x5C, CHR 0x5C, CHR 0x22] @ ''}'')
   \<and> validate plainBrowser ([CHR 0x27, CHR 0x0A] @ ''}'')"
  by code_simp

section \<open>Detection and repair of the broken pattern\<close>

lemma rmatch_rems: "map fst (rmatch r (s, cp)) = rems r s"
proof (induction r arbitrary: s cp)
  case (Seq r1 r2)
  have h: "map fst (concat (map (rmatch r2) xs)) = concat (map (rems r2) (map fst xs))" for xs
  proof (induction xs)
    case Nil
    show ?case by simp
  next
    case (Cons x xs)
    obtain t c where x: "x = (t, c)" by (cases x)
    show ?case using Cons Seq.IH(2) [of t c] by (simp add: x)
  qed
  have "map fst (rmatch (Seq r1 r2) (s, cp)) = map fst (concat (map (rmatch r2) (rmatch r1 (s, cp))))"
    by simp
  also have "\<dots> = concat (map (rems r2) (map fst (rmatch r1 (s, cp))))" by (rule h)
  also have "\<dots> = concat (map (rems r2) (rems r1 s))" by (simp only: Seq.IH(1))
  finally show ?case by simp
qed (auto simp: comp_def case_prod_beta split: list.splits)

lemma matchHere_None_iff: "matchHere r s = None \<longleftrightarrow> rems r s = []"
  using rmatch_rems [of r s Map.empty]
  by (cases "rmatch r (s, Map.empty)") (auto simp: matchHere_def)

lemma concat_map_concat:
  "concat (map f (concat (map g xs))) = concat (map (\<lambda>x. concat (map f (g x))) xs)"
  by (induction xs) simp_all

lemma concat_map_single: "concat (map (\<lambda>x. [x]) xs) = xs"
  by (induction xs) simp_all

lemma seqf_assoc: "seqf (seqf f g) h = seqf f (seqf g h)"
  by (simp add: seqf_def concat_map_concat)

lemma seqf_unit: "seqf f unitf = f" "seqf unitf f = f"
  by (simp_all add: seqf_def unitf_def concat_map_single)

lemma rems_Seq: "rems (Seq a b) = seqf (rems a) (rems b)"
  by (rule ext) (simp add: seqf_def)

lemma rems_Grp: "rems (Grp n r) = rems r"
  by (rule ext) simp

lemma rems_Lit_Nil: "rems (Lit []) = unitf"
  by (rule ext) (simp add: unitf_def startsWith_def)

lemma rems_patterns: "rems brokenVarPattern = rems brokenPattern"
  unfolding brokenVarPattern_def brokenPattern_def cat_def foldr.simps comp_def
  by (simp only: id_apply rems_Seq rems_Grp rems_Lit_Nil seqf_assoc seqf_unit)

lemma search_None_Cons:
  "search r (c # cs) = None \<longleftrightarrow> matchHere r (c # cs) = None \<and> search r cs = None"
  by (cases "matchHere r (c # cs)") simp_all

lemma replaceAll_no_match:
  assumes same: "\<And>t. matchHere r t = None \<longleftrightarrow> matchHere r' t = None"
  shows "search r' s = None \<Longrightarrow> replaceAll r f s = s"
proof (induction s)
  case Nil
  then have "matchHere r [] = None" using same [of "[]"] by simp
  then show ?case by simp
next
  case (Cons c cs)
  from Cons.prems have "matchHere r' (c # cs) = None" "search r' cs = None"
    using search_None_Cons [of r' c cs] by blast+
  then have "matchHere r (c # cs) = None" "replaceAll r f cs = cs"
    using same [of "c # cs"] Cons.IH by simp_all
  then show ?case by simp
qed

lemma fixBrokenCSS_identity: "\<not> needsFix css \<Longrightarrow> fixBrokenCSS css = css"
proof -
  assume "\<not> needsFix css"
  then have "search brokenPattern css = None"
    by (cases "search brokenPattern css") (simp_all add: needsFix_def test_def)
  then show ?thesis
    unfolding fixBrokenCSS_def
    by (rule replaceAll_no_match [rotated]) (simp add: matchHere_None_iff rems_patterns)
qed

text \<open>The example of the specification: detected and repaired.\<close>

lemma fixBrokenCSS_example:
  "needsFix (''var(--c, [data-component-id='' @ [CHR 0x22] @ ''x'' @ [CHR 0x22] @ ''] #fff)'')"
  "fixBrokenCSS (''var(--c, [data-component-id='' @ [CHR 0x22] @ ''x'' @ [CHR 0x22] @ ''] #fff)'')
     = ''var(--c, #fff)''"
  by code_simp+

text \<open>
  C3. The claim: \<open>needsFix\<close> detects \<open>var(--name, [bracketed-selector] value)\<close> and
  \<open>fixBrokenCSS\<close> strips the bracketed fragment out of every occurrence. The value is
  found with \<open>/\]\s*(.+)$/\<close>, where \<open>.\<close> stops at a line terminator and \<open>$\<close> is the end of
  the text: for an occurrence whose value holds a line feed nothing is found, the whole
  broken value is written back, and \<open>needsFix\<close> still holds of the result.
\<close>

theorem fixBrokenCSS_keeps_fragment_across_lines:
  "needsFix (''var(--c, [x] a'' @ [CHR 0x0A] @ ''b)'')
   \<and> fixBrokenCSS (''var(--c, [x] a'' @ [CHR 0x0A] @ ''b)'') = ''var(--c, [x] a'' @ [CHR 0x0A] @ ''b)''
   \<and> needsFix (fixBrokenCSS (''var(--c, [x] a'' @ [CHR 0x0A] @ ''b)''))"
  by code_simp

text \<open>
  C9. For every text on which \<open>needsFix\<close> is false, \<open>fixBrokenCSS\<close> returns the text as it
  is: the two search for the same pattern (the groups of the pattern of \<open>fixBrokenCSS\<close>
  play no part in where it matches), and a replacement without a match changes nothing.
  In particular a repaired text on which \<open>needsFix\<close> is false is left as it is by a second
  repair.
\<close>

theorem fixBrokenCSS_unchanged_without_pattern:
  "(\<not> needsFix css \<longrightarrow> fixBrokenCSS css = css)
   \<and> (\<not> needsFix (fixBrokenCSS css) \<longrightarrow> fixBrokenCSS (fixBrokenCSS css) = fixBrokenCSS css)"
  by (intro conjI impI) (erule fixBrokenCSS_identity)+

theorem fixBrokenCSS_unchanged_without_pattern_witness:
  "\<not> needsFix ''.btn { background: var(--c, #fff); }''
   \<and> fixBrokenCSS ''.btn { background: var(--c, #fff); }'' = ''.btn { background: var(--c, #fff); }''
   \<and> needsFix ''a{b:var(--c, [x] #fff)}''
   \<and> fixBrokenCSS ''a{b:var(--c, [x] #fff)}'' = ''a{b:var(--c, #fff)}''
   \<and> \<not> needsFix (fixBrokenCSS ''a{b:var(--c, [x] #fff)}'')
   \<and> fixBrokenCSS (fixBrokenCSS ''a{b:var(--c, [x] #fff)}'') = fixBrokenCSS ''a{b:var(--c, [x] #fff)}''"
proof -
  have clean: "\<not> needsFix ''.btn { background: var(--c, #fff); }''"
    by code_simp
  have broken: "needsFix ''a{b:var(--c, [x] #fff)}''"
    by code_simp
  have repair: "fixBrokenCSS ''a{b:var(--c, [x] #fff)}'' = ''a{b:var(--c, #fff)}''"
    by code_simp
  have repaired: "\<not> needsFix (fixBrokenCSS ''a{b:var(--c, [x] #fff)}'')"
    by code_simp
  have first: "fixBrokenCSS ''.btn { background: var(--c, #fff); }'' = ''.btn { background: var(--c, #fff); }''"
    by (rule fixBrokenCSS_unchanged_without_pattern [THEN conjunct1, THEN mp, OF clean])
  have second: "fixBrokenCSS (fixBrokenCSS ''a{b:var(--c, [x] #fff)}'') = fixBrokenCSS ''a{b:var(--c, [x] #fff)}''"
    by (rule fixBrokenCSS_unchanged_without_pattern [THEN conjunct2, THEN mp, OF repaired])
  show ?thesis
    by (intro conjI) (rule clean first broken repair repaired second)+
qed

section \<open>Properties of injectStyles\<close>

text \<open>
  C10. For every scope id: with blank css (empty or only white space) \<open>injectStyles\<close>
  returns null and leaves the head and the style map as they were; with any other css it
  creates exactly one element, carrying the scope id and the css, appends it to the head,
  appends it to the list kept under the scope id (an empty list when the key was absent,
  the old entries kept otherwise), leaves every other key alone, and returns the element.
\<close>

theorem injectStyles_frame:
  "(trim css = [] \<longrightarrow> injectStyles css scopeId st = (None, st)) \<and>
   (trim css \<noteq> [] \<longrightarrow>
      (\<exists>el st'. injectStyles css scopeId st = (Some el, st') \<and>
         el = \<lparr>elemId = created st, componentScope = scopeId,
                componentStyle = ''true'', textContent = css\<rparr> \<and>
         created st' = created st + 1 \<and>
         docHead st' = docHead st @ [el] \<and>
         styles st' scopeId =
           Some ((case styles st scopeId of None \<Rightarrow> [] | Some l \<Rightarrow> l) @ [el]) \<and>
         (\<forall>k. k \<noteq> scopeId \<longrightarrow> styles st' k = styles st k)))"
  by (cases "styles st scopeId") (simp_all add: injectStyles_def Let_def)

theorem injectStyles_frame_witness:
  "injectStyles ''  '' ''s1'' \<lparr>created = 0, docHead = [], styles = Map.empty\<rparr>
     = (None, \<lparr>created = 0, docHead = [], styles = Map.empty\<rparr>) \<and>
   fst (injectStyles ''a{}'' ''s1'' \<lparr>created = 0, docHead = [], styles = Map.empty\<rparr>)
     = Some \<lparr>elemId = 0, componentScope = ''s1'', componentStyle = ''true'',
             textContent = ''a{}''\<rparr>"
proof -
  have b: "trim ''  '' = []" by (simp add: trim_def isWhiteSpace_def)
  have n: "trim ''a{}'' \<noteq> []" by (simp add: trim_def isWhiteSpace_def)
  from injectStyles_frame [of "''  ''" "''s1''" "\<lparr>created = 0, docHead = [], styles = Map.empty\<rparr>"] b
  have 1: "injectStyles ''  '' ''s1'' \<lparr>created = 0, docHead = [], styles = Map.empty\<rparr>
     = (None, \<lparr>created = 0, docHead = [], styles = Map.empty\<rparr>)" by blast
  from injectStyles_frame [of "''a{}''" "''s1''" "\<lparr>created = 0, docHead = [], styles = Map.empty\<rparr>"] n
  have 2: "fst (injectStyles ''a{}'' ''s1'' \<lparr>created = 0, docHead = [], styles = Map.empty\<rparr>)
     = Some \<lparr>elemId = 0, componentScope = ''s1'', componentStyle = ''true'',
             textContent = ''a{}''\<rparr>" by auto
  from 1 2 show ?thesis by blast
qed

section \<open>The render path on a one-line rule\<close>

lemma btn_no_fix: "needsFix ''.btn { background: var(--c, #fff); }'' = False"
  by code_simp

lemma btn_nl_no_fix: "needsFix (''.btn { background: var(--c, #fff); }'' @ [CHR 0x0A]) = False"
  by code_simp

lemma btn_not_blank: "trim ''.btn { background: var(--c, #fff); }'' \<noteq> []"
  by code_simp

lemma btn_safe: "scopeCSSSafe ''.btn { background: var(--c, #fff); }'' (scopeSelectorOf ''x'')
   = ''.btn { background: var(--c, #fff); }'' @ [CHR 0x0A]"
  by code_simp

lemma btn_simple: "simpleScopeCSS ''.btn { background: var(--c, #fff); }'' ''x''
   = ''.btn { background: var(--c, #fff); }'' @ [CHR 0x0A]"
  by code_simp

lemma btn_manual:
  "scopeWithManualParser ''.btn { background: var(--c, #fff); }'' (scopeSelectorOf ''x'')
     = scopeSelectorOf ''x'' @ '' .btn{ background: var(--c, #fff); }'' @ [CHR 0x0A]"
  by code_simp

text \<open>
  C1. The claim: scoping \<open>.btn { background: var(--c, #fff); }\<close> with
  \<open>[data-component-id="x"]\<close> on the render path yields the rule with the selector
  prefixed and the declaration block untouched. On the code, \<open>scopeCSSSafe\<close> (the scoper
  \<open>injectScopedStyles\<close> calls) treats a line holding both braces as text outside any rule:
  the line is returned as it came, followed by a line feed, with no prefix; the style
  injected by \<open>injectScopedStyles\<close> under the default configuration is that unscoped text,
  whether \<open>window.CSSParser\<close> is set or not. The declaration block is indeed untouched.
\<close>

theorem render_path_leaves_one_line_rule_unscoped:
  "scopeCSSSafe ''.btn { background: var(--c, #fff); }'' (scopeSelectorOf ''x'')
     = ''.btn { background: var(--c, #fff); }'' @ [CHR 0x0A]
   \<and> injectScopedStyles defaultConfig env ''.btn { background: var(--c, #fff); }'' ''x'' st
     = Inr (injectStyles (''.btn { background: var(--c, #fff); }'' @ [CHR 0x0A]) ''x'' st)"
proof -
  have "injectScopedStyles defaultConfig env ''.btn { background: var(--c, #fff); }'' ''x'' st
     = Inr (injectStyles (''.btn { background: var(--c, #fff); }'' @ [CHR 0x0A]) ''x'' st)"
    unfolding injectScopedStyles_def Let_def
    by (simp only: btn_no_fix btn_not_blank btn_safe btn_simple btn_nl_no_fix defaultConfig_def
          loader_config.simps if_False if_True simp_thms list.inject char.inject)
       simp
  with btn_safe show ?thesis by blast
qed

section \<open>The \<open>:host\<close> family\<close>

text \<open>What \<open>handleHostSelector\<close> (reached from \<open>scopeSelectors\<close>) does, for every scope
  selector.\<close>

lemma handleHostSelector_family:
  "handleHostSelector '':host'' sc = sc"
  "handleHostSelector '':host(.active)'' sc = sc @ ''.active''"
  "handleHostSelector '':host:hover'' sc = sc @ '':hover''"
  by code_simp+

lemma scopeSelectors_host_family:
  "scopeSelectors '':host'' sc = sc"
  "scopeSelectors '':host(.active)'' sc = sc @ ''.active''"
  "scopeSelectors '':host:hover'' sc = sc @ '':hover''"
  by code_simp+

text \<open>
  C5. The claim: \<open>:host\<close> becomes the scope selector, \<open>:host(.active)\<close> the scope
  selector followed by \<open>.active\<close>, \<open>:host:hover\<close> the scope selector followed by
  \<open>:hover\<close>. \<open>scopeSelectorsSafe\<close>, the selector scoper of the render path, only replaces
  the text \<open>:host\<close>: the parentheses of \<open>:host(.active)\<close> stay, and a rule that opens
  with it is written to the page with the selector \<open>[data-component-id="x"](.active)\<close>.
  The other two selectors come out as claimed there.
\<close>

theorem scopeSelectorsSafe_keeps_host_parentheses:
  "scopeSelectorsSafe '':host(.active)'' (scopeSelectorOf ''x'') = scopeSelectorOf ''x'' @ ''(.active)''
   \<and> scopeCSSSafe ('':host(.active) {'' @ [CHR 0x0A] @ ''color:red'' @ [CHR 0x0A] @ ''}'')
                    (scopeSelectorOf ''x'')
       = scopeSelectorOf ''x'' @ ''(.active) {'' @ [CHR 0x0A] @ ''color:red'' @ [CHR 0x0A] @ ''}''
           @ [CHR 0x0A]
   \<and> scopeSelectorsSafe '':host'' (scopeSelectorOf ''x'') = scopeSelectorOf ''x''
   \<and> scopeSelectorsSafe '':host:hover'' (scopeSelectorOf ''x'') = scopeSelectorOf ''x'' @ '':hover''"
  by code_simp

section \<open>Selectors that are not to be scoped\<close>

text \<open>\<open>scopeSelectorsSafe\<close> returns these selectors unchanged, for every scope selector.\<close>

lemma scopeSelectorsSafe_unscoped:
  "scopeSelectorsSafe ''html'' sc = ''html''"
  "scopeSelectorsSafe '':root'' sc = '':root''"
  "scopeSelectorsSafe ''body'' sc = ''body''"
  "scopeSelectorsSafe ''--c1'' sc = ''--c1''"
  by code_simp+

lemma scopeSelectors_unscoped:
  "scopeSelectors ''html'' sc = ''html''"
  "scopeSelectors '':root'' sc = '':root''"
  "scopeSelectors ''body'' sc = ''body''"
  "scopeSelectors ''--custom-prop'' sc = ''--custom-prop''"
  by code_simp+

text \<open>
  C6. The claim: \<open>html\<close>, \<open>:root\<close>, \<open>body\<close> and selectors beginning with \<open>--\<close> are
  never prefixed, in any of the scoping implementations. \<open>simpleScopeCSS\<close> exempts
  \<open>html\<close> and \<open>:root\<close> but not \<open>body\<close>, which it prefixes; \<open>scopeSelectors\<close> exempts a
  selector beginning with \<open>--\<close> only when the rest is letters and hyphens, so \<open>--c1\<close> is
  prefixed.
\<close>

theorem body_and_custom_property_prefixed:
  "simpleScopeCSS (''body {'' @ [CHR 0x0A] @ ''}'') ''x''
     = scopeSelectorOf ''x'' @ '' body {'' @ [CHR 0x0A] @ ''}'' @ [CHR 0x0A]
   \<and> scopeSelectors ''--c1'' (scopeSelectorOf ''x'') = scopeSelectorOf ''x'' @ '' --c1''"
  by code_simp

section \<open>Retry exhaustion\<close>

text \<open>A fetch fails when the network rejects it or the response is not \<open>ok\<close>; the error
  \<open>fetchComponent\<close> throws then.\<close>

definition fetchFails :: "http_response \<Rightarrow> bool" where
  "fetchFails r = (case r of NetworkFailure msg \<Rightarrow> True | Response ok status statusText body \<Rightarrow> \<not> ok)"

definition thrownBy :: "http_response \<Rightarrow> string" where
  "thrownBy r = (case r of NetworkFailure msg \<Rightarrow> msg
                 | Response ok status statusText body \<Rightarrow> ''HTTP '' @ status @ '': '' @ statusText)"

lemma fetchComponent_fails:
  "fetchFails (http env (fetchCount st) (basePath cfg @ name @ ''.html'')) \<Longrightarrow>
   fetchComponent cfg env name st
     = (Inl (Error (thrownBy (http env (fetchCount st) (basePath cfg @ name @ ''.html'')))),
        st\<lparr>trace := trace st @ [Fetch (basePath cfg @ name @ ''.html'')],
           fetchCount := fetchCount st + 1\<rparr>)"
  by (auto simp: fetchComponent_def fetchFails_def thrownBy_def Let_def split: http_response.splits)

lemma retryLoop_exhausted:
  assumes rc: "retryCount cfg = 2"
    and fail: "\<forall>n. fetchFails (http env n (basePath cfg @ name @ ''.html''))"
  shows "retryLoop cfg env name 0 e0 st
     = (Inl (Error (thrownBy (http env (fetchCount st + 2) (basePath cfg @ name @ ''.html'')))),
        st\<lparr>trace := trace st @ [Fetch (basePath cfg @ name @ ''.html''), Delay (retryDelay cfg * 1),
                                 Fetch (basePath cfg @ name @ ''.html''), Delay (retryDelay cfg * 2),
                                 Fetch (basePath cfg @ name @ ''.html'')],
           fetchCount := fetchCount st + 3\<rparr>)"
proof -
  let ?p = "basePath cfg @ name @ ''.html''"
  have f: "\<And>s. fetchComponent cfg env name s
     = (Inl (Error (thrownBy (http env (fetchCount s) ?p))),
        s\<lparr>trace := trace s @ [Fetch ?p], fetchCount := fetchCount s + 1\<rparr>)"
    using fail fetchComponent_fails by blast
  have l3: "\<And>e s. retryLoop cfg env name 3 e s = (Inl e, s)"
    by (subst retryLoop.simps) (simp add: rc)
  have l2: "\<And>e s. retryLoop cfg env name 2 e s
      = (Inl (Error (thrownBy (http env (fetchCount s) ?p))),
         s\<lparr>trace := trace s @ [Fetch ?p], fetchCount := fetchCount s + 1\<rparr>)"
    by (subst retryLoop.simps) (simp add: rc f l3)
  have l1: "\<And>e s. retryLoop cfg env name 1 e s
      = (Inl (Error (thrownBy (http env (fetchCount s + 1) ?p))),
         s\<lparr>trace := trace s @ [Fetch ?p, Delay (retryDelay cfg * 2), Fetch ?p],
           fetchCount := fetchCount s + 2\<rparr>)"
    by (subst retryLoop.simps) (simp add: rc f l2)
  show ?thesis
    by (subst retryLoop.simps) (simp add: rc f l1 add.commute)
qed

text \<open>
  C8. With \<open>retryCount = 2\<close> and a fetch that fails every time,
  \<open>fetchComponentWithRetry\<close> issues exactly three fetches, waits \<open>retryDelay * 1\<close> before
  the first retry and \<open>retryDelay * 2\<close> before the second, and throws the error of the
  third attempt; \<open>loadComponent\<close> (nothing cached for the name) then leaves the placeholder
  marked \<open>loading = "false"\<close>, \<open>loaded = "false"\<close>, \<open>error = "true"\<close>, with the message
  of that error.
\<close>

theorem retry_exhaustion:
  assumes "retryCount cfg = 2"
    and "\<forall>n. fetchFails (http env n (basePath cfg @ name @ ''.html''))"
    and "\<not> (cache cfg \<and> components st name \<noteq> None)"
  shows "fetchComponentWithRetry cfg env name retry st
     = (Inl (Error (thrownBy (http env (fetchCount st + 2) (basePath cfg @ name @ ''.html'')))),
        st\<lparr>trace := trace st @ [Fetch (basePath cfg @ name @ ''.html''), Delay (retryDelay cfg * 1),
                                 Fetch (basePath cfg @ name @ ''.html''), Delay (retryDelay cfg * 2),
                                 Fetch (basePath cfg @ name @ ''.html'')],
           fetchCount := fetchCount st + 3\<rparr>)
   \<and> (let st' = snd (loadComponent cfg env name retry loadId st) in
        trace st' = trace st @ [Fetch (basePath cfg @ name @ ''.html''), Delay (retryDelay cfg * 1),
                                Fetch (basePath cfg @ name @ ''.html''), Delay (retryDelay cfg * 2),
                                Fetch (basePath cfg @ name @ ''.html'')]
        \<and> fetchCount st' = fetchCount st + 3
        \<and> dataset (placeholder st') ''loading'' = Some ''false''
        \<and> dataset (placeholder st') ''loaded'' = Some ''false''
        \<and> dataset (placeholder st') ''error'' = Some ''true''
        \<and> dataset (placeholder st') ''errorMessage''
              = Some (thrownBy (http env (fetchCount st + 2) (basePath cfg @ name @ ''.html''))))"
proof -
  let ?p = "basePath cfg @ name @ ''.html''"
  let ?st2 = "(setData ''loadId'' loadId (setData ''loading'' ''true'' st))
                \<lparr>loadingStates := (loadingStates (setData ''loadId'' loadId (setData ''loading'' ''true'' st)))
                       (loadId \<mapsto> \<lparr>lsName = name, lsRetryCount = retry, lsError = None\<rparr>)\<rparr>"
  have r: "\<And>s. fetchComponentWithRetry cfg env name retry s
     = (Inl (Error (thrownBy (http env (fetchCount s + 2) ?p))),
        s\<lparr>trace := trace s @ [Fetch ?p, Delay (retryDelay cfg * 1), Fetch ?p,
                                Delay (retryDelay cfg * 2), Fetch ?p],
          fetchCount := fetchCount s + 3\<rparr>)"
    unfolding fetchComponentWithRetry_def using retryLoop_exhausted [OF assms(1,2)] by blast
  have miss: "(if cache cfg then components ?st2 name else None) = None"
    using assms(3) by (auto simp: setData_def)
  have t: "loadTry cfg env name retry loadId ?st2
     = (Some (Error (thrownBy (http env (fetchCount st + 2) ?p))),
        ?st2\<lparr>trace := trace st @ [Fetch ?p, Delay (retryDelay cfg * 1), Fetch ?p,
                                  Delay (retryDelay cfg * 2), Fetch ?p],
             fetchCount := fetchCount st + 3\<rparr>)"
    unfolding loadTry_def miss by (simp add: r setData_def)
  have l: "loadComponent cfg env name retry loadId st
     = loadCatch cfg env name loadId (Error (thrownBy (http env (fetchCount st + 2) ?p)))
        (?st2\<lparr>trace := trace st @ [Fetch ?p, Delay (retryDelay cfg * 1), Fetch ?p,
                                  Delay (retryDelay cfg * 2), Fetch ?p],
             fetchCount := fetchCount st + 3\<rparr>)"
    unfolding loadComponent_def Let_def t by simp
  show ?thesis
    unfolding l
    by (simp add: r loadCatch_def message_def setData_def deleteData_def Let_def
             split: option.splits)
qed


theorem retry_exhaustion_witness:
  "fst (fetchComponentWithRetry defaultConfig
          \<lparr>cssParserPresent = True,
           cssBrowser = \<lparr>cssomAvailable = True, replaceSyncThrows = (\<lambda>t. False)\<rparr>,
           http = (\<lambda>n path. Response False ''404'' ''Not Found'' []),
           extractParts = (\<lambda>t. \<lparr>componentHtml = t, componentCss = []\<rparr>),
           renderComponent = (\<lambda>el d n. Inr el), errorHTML = (\<lambda>n e. ''error'')\<rparr>
          ''header'' 0
          \<lparr>trace = [], fetchCount = 0, components = Map.empty, loadingStates = Map.empty,
           placeholder = \<lparr>dataset = Map.empty, innerHTML = []\<rparr>\<rparr>)
     = Inl (Error ''HTTP 404: Not Found'')
   \<and> trace (snd (loadComponent defaultConfig
          \<lparr>cssParserPresent = True,
           cssBrowser = \<lparr>cssomAvailable = True, replaceSyncThrows = (\<lambda>t. False)\<rparr>,
           http = (\<lambda>n path. Response False ''404'' ''Not Found'' []),
           extractParts = (\<lambda>t. \<lparr>componentHtml = t, componentCss = []\<rparr>),
           renderComponent = (\<lambda>el d n. Inr el), errorHTML = (\<lambda>n e. ''error'')\<rparr>
          ''header'' 0 ''header-1-abc''
          \<lparr>trace = [], fetchCount = 0, components = Map.empty, loadingStates = Map.empty,
           placeholder = \<lparr>dataset = Map.empty, innerHTML = []\<rparr>\<rparr>))
     = [Fetch ''components/header.html'', Delay 1000, Fetch ''components/header.html'',
        Delay 2000, Fetch ''components/header.html'']
   \<and> dataset (placeholder (snd (loadComponent defaultConfig
          \<lparr>cssParserPresent = True,
           cssBrowser = \<lparr>cssomAvailable = True, replaceSyncThrows = (\<lambda>t. False)\<rparr>,
           http = (\<lambda>n path. Response False ''404'' ''Not Found'' []),
           extractParts = (\<lambda>t. \<lparr>componentHtml = t, componentCss = []\<rparr>),
           renderComponent = (\<lambda>el d n. Inr el), errorHTML = (\<lambda>n e. ''error'')\<rparr>
          ''header'' 0 ''header-1-abc''
          \<lparr>trace = [], fetchCount = 0, components = Map.empty, loadingStates = Map.empty,
           placeholder = \<lparr>dataset = Map.empty, innerHTML = []\<rparr>\<rparr>))) ''error''
     = Some ''true''"
  using retry_exhaustion [of defaultConfig
          "\<lparr>cssParserPresent = True,
           cssBrowser = \<lparr>cssomAvailable = True, replaceSyncThrows = (\<lambda>t. False)\<rparr>,
           http = (\<lambda>n path. Response False ''404'' ''Not Found'' []),
           extractParts = (\<lambda>t. \<lparr>componentHtml = t, componentCss = []\<rparr>),
           renderComponent = (\<lambda>el d n. Inr el), errorHTML = (\<lambda>n e. ''error'')\<rparr>"
          "''header''"
          "\<lparr>trace = [], fetchCount = 0, components = Map.empty, loadingStates = Map.empty,
           placeholder = \<lparr>dataset = Map.empty, innerHTML = []\<rparr>\<rparr>" 0 "''header-1-abc''"]
  by (simp add: defaultConfig_def fetchFails_def thrownBy_def Let_def)

end
